theory Spec2Isabelle
  imports
    Main
    "HOL-Library.Char_ord"
    "HOL-Library.List_Lexorder"
    "HOL-Library.Product_Lexorder"
    "HOL-Library.Multiset"
begin

section \<open>The daily task tracker (\<^verbatim>\<open>daily_tracker.py\<close>)\<close>

text \<open>
  Conventions of the embedding.
  \<^item> A Python \<^verbatim>\<open>str\<close> is a \<^typ>\<open>string\<close>; one \<^typ>\<open>char\<close> stands for one code point
    below 256. On that range the ASCII digits are the only decimal digits, which is what
    \<^verbatim>\<open>\d\<close> and \<^verbatim>\<open>int()\<close> look at. Python compares strings by code point,
    lexicographically, a proper prefix being smaller: the order of \<^typ>\<open>char list\<close>.
  \<^item> A Python \<^verbatim>\<open>int\<close> is an \<^typ>\<open>int\<close>.
  \<^item> An exception is a value: a function that can raise returns \<open>exn + 'a\<close>.
  \<^item> The file \<^verbatim>\<open>tasks.json\<close> is explicit state, passed in and returned.
\<close>

subsection \<open>Task model\<close>

record task =
  task_id :: int
  description :: string
  scheduled_for :: string
  completed :: bool

definition matches_date :: "task \<Rightarrow> string option \<Rightarrow> bool" where
  "matches_date t date = (case date of None \<Rightarrow> True | Some d \<Rightarrow> scheduled_for t = d)"

definition matches_state :: "task \<Rightarrow> bool option \<Rightarrow> bool" where
  "matches_state t c = (case c of None \<Rightarrow> True | Some b \<Rightarrow> completed t = b)"

subsection \<open>Exceptions\<close>

text \<open>
  \<^verbatim>\<open>TaskError\<close> is the only exception class of the program. It is raised with two
  messages: the one of \<^verbatim>\<open>load_tasks\<close> (the data cannot be read) and the one of
  \<^verbatim>\<open>update_task_state\<close> and \<^verbatim>\<open>remove_task\<close> (no task with this id). The other
  constructors are the builtin exceptions that subscripting and \<^verbatim>\<open>int()\<close> raise, and
  the one \<^verbatim>\<open>parse_date\<close> raises for \<^verbatim>\<open>argparse\<close>.
\<close>

datatype task_error = CannotReadData | TaskNotFound int

datatype exn =
    TaskError task_error
  | KeyError string
  | ValueError
  | TypeError
  | ArgumentTypeError

subsection \<open>Decoded JSON and the builtin coercions\<close>

text \<open>
  What \<^verbatim>\<open>json.loads\<close> returns: \<^verbatim>\<open>None\<close>, a bool, an int, a str, a list or a
  dict (its items in insertion order, the keys pairwise distinct). Numbers with a
  fraction or an exponent (Python floats) are not part of the model.
\<close>

datatype json =
    JNull
  | JBool bool
  | JInt int
  | JStr string
  | JList "json list"
  | JObject "(string \<times> json) list"

definition digit_val :: "char \<Rightarrow> nat option" where
  "digit_val c = (if CHR ''0'' \<le> c \<and> c \<le> CHR ''9'' then Some (of_char c - 48) else None)"

definition digit_char :: "nat \<Rightarrow> char" where
  "digit_char n = char_of (48 + n)"

text \<open>The characters that \<^verbatim>\<open>int()\<close> skips around a literal.\<close>

definition int_space :: "char \<Rightarrow> bool" where
  "int_space c = (c \<in> {CHR 0x09, CHR 0x0A, CHR 0x0B, CHR 0x0C, CHR 0x0D, CHR 0x20, CHR 0x85, CHR 0xA0})"

definition strip :: "string \<Rightarrow> string" where
  "strip s = rev (dropWhile int_space (rev (dropWhile int_space s)))"

text \<open>Decimal digits, a single underscore allowed between two digits.\<close>

fun int_digits :: "nat \<Rightarrow> string \<Rightarrow> nat option" where
  "int_digits acc [] = Some acc"
| "int_digits acc [c] =
     (case digit_val c of None \<Rightarrow> None | Some v \<Rightarrow> Some (10 * acc + v))"
| "int_digits acc (c # d # ds) =
     (if c = CHR ''_''
      then (case digit_val d of None \<Rightarrow> None | Some v \<Rightarrow> int_digits (10 * acc + v) ds)
      else (case digit_val c of None \<Rightarrow> None | Some v \<Rightarrow> int_digits (10 * acc + v) (d # ds)))"

definition int_literal :: "string \<Rightarrow> nat option" where
  "int_literal s =
     (case s of
        [] \<Rightarrow> None
      | c # cs \<Rightarrow> (case digit_val c of None \<Rightarrow> None | Some v \<Rightarrow> int_digits v cs))"

text \<open>\<^verbatim>\<open>int(s)\<close> for a str: \<^verbatim>\<open>ValueError\<close> unless it is a base-10 literal.\<close>

definition py_int_str :: "string \<Rightarrow> exn + int" where
  "py_int_str s =
     (let t = strip s;
          neg = (case t of [] \<Rightarrow> False | c # _ \<Rightarrow> c = CHR ''-'');
          body = (case t of [] \<Rightarrow> [] | c # cs \<Rightarrow> if c = CHR ''+'' \<or> c = CHR ''-'' then cs else t)
      in case int_literal body of
           None \<Rightarrow> Inl ValueError
         | Some n \<Rightarrow> Inr (if neg then - int n else int n))"

fun py_int :: "json \<Rightarrow> exn + int" where
  "py_int (JInt n) = Inr n"
| "py_int (JBool b) = Inr (if b then 1 else 0)"
| "py_int (JStr s) = py_int_str s"
| "py_int JNull = Inl TypeError"
| "py_int (JList xs) = Inl TypeError"
| "py_int (JObject kvs) = Inl TypeError"

fun py_bool :: "json \<Rightarrow> bool" where
  "py_bool JNull = False"
| "py_bool (JBool b) = b"
| "py_bool (JInt n) = (n \<noteq> 0)"
| "py_bool (JStr s) = (s \<noteq> [])"
| "py_bool (JList xs) = (xs \<noteq> [])"
| "py_bool (JObject kvs) = (kvs \<noteq> [])"

text \<open>\<^verbatim>\<open>str(n)\<close> for an int.\<close>

fun nat_digits :: "nat \<Rightarrow> string" where
  "nat_digits n = (if n < 10 then [digit_char n] else nat_digits (n div 10) @ [digit_char (n mod 10)])"

definition int_str :: "int \<Rightarrow> string" where
  "int_str n = (if n < 0 then CHR ''-'' # nat_digits (nat (- n)) else nat_digits (nat n))"

text \<open>
  \<^verbatim>\<open>repr(s)\<close> for a str: single quotes, unless the text has a single quote and no
  double quote; the quote, the backslash and the characters that are not printable are
  escaped.
\<close>

definition hex_char :: "nat \<Rightarrow> char" where
  "hex_char n = (if n < 10 then char_of (48 + n) else char_of (87 + n))"

definition printable :: "char \<Rightarrow> bool" where
  "printable c =
     ((CHR 0x20 \<le> c \<and> c < CHR 0x7F) \<or> (CHR 0xA0 < c \<and> c \<noteq> CHR 0xAD))"

definition repr_char :: "char \<Rightarrow> char \<Rightarrow> string" where
  "repr_char q c =
     (if c = q \<or> c = CHR 0x5C then [CHR 0x5C, c]
      else if c = CHR 0x09 then [CHR 0x5C, CHR ''t'']
      else if c = CHR 0x0A then [CHR 0x5C, CHR ''n'']
      else if c = CHR 0x0D then [CHR 0x5C, CHR ''r'']
      else if printable c then [c]
      else [CHR 0x5C, CHR ''x'', hex_char (of_char c div 16), hex_char (of_char c mod 16)])"

definition repr_str :: "string \<Rightarrow> string" where
  "repr_str s =
     (let q = (if CHR 0x27 \<in> set s \<and> CHR 0x22 \<notin> set s then CHR 0x22 else CHR 0x27)
      in q # concat (map (repr_char q) s) @ [q])"

fun join :: "string \<Rightarrow> string list \<Rightarrow> string" where
  "join sep [] = []"
| "join sep [x] = x"
| "join sep (x # y # ys) = x @ sep @ join sep (y # ys)"

fun py_repr :: "json \<Rightarrow> string" where
  "py_repr JNull = ''None''"
| "py_repr (JBool b) = (if b then ''True'' else ''False'')"
| "py_repr (JInt n) = int_str n"
| "py_repr (JStr s) = repr_str s"
| "py_repr (JList xs) = ''['' @ join '', '' (map py_repr xs) @ '']''"
| "py_repr (JObject kvs) =
     ''{'' @ join '', '' (map (\<lambda>kv. repr_str (fst kv) @ '': '' @ py_repr (snd kv)) kvs) @ ''}''"

text \<open>\<^verbatim>\<open>str(v)\<close> never raises: a str is itself, anything else is its \<^verbatim>\<open>repr\<close>.\<close>

definition py_str :: "json \<Rightarrow> string" where
  "py_str v = (case v of JStr s \<Rightarrow> s | _ \<Rightarrow> py_repr v)"

text \<open>
  \<^verbatim>\<open>raw[key]\<close> with a str key: the value under the key of a dict, \<^verbatim>\<open>KeyError\<close>
  when the dict lacks it, \<^verbatim>\<open>TypeError\<close> on anything that is not a dict.
\<close>

definition subscript :: "json \<Rightarrow> string \<Rightarrow> exn + json" where
  "subscript raw key =
     (case raw of
        JObject kvs \<Rightarrow> (case map_of kvs key of None \<Rightarrow> Inl (KeyError key) | Some v \<Rightarrow> Inr v)
      | _ \<Rightarrow> Inl TypeError)"

text \<open>\<^verbatim>\<open>raw.get(key, default)\<close>, called once the subscripts have shown a dict.\<close>

definition dict_get :: "json \<Rightarrow> string \<Rightarrow> json \<Rightarrow> exn + json" where
  "dict_get raw key dflt =
     (case raw of
        JObject kvs \<Rightarrow> (case map_of kvs key of None \<Rightarrow> Inr dflt | Some v \<Rightarrow> Inr v)
      | _ \<Rightarrow> Inl TypeError)"

text \<open>
  \<^verbatim>\<open>Task.from_dict\<close>: the keyword arguments are evaluated in the order written, so the
  first failing one decides the exception.
\<close>

definition from_dict :: "json \<Rightarrow> exn + task" where
  "from_dict raw =
     (case subscript raw ''task_id'' of Inl e \<Rightarrow> Inl e | Inr v1 \<Rightarrow>
      (case py_int v1 of Inl e \<Rightarrow> Inl e | Inr i \<Rightarrow>
      (case subscript raw ''description'' of Inl e \<Rightarrow> Inl e | Inr v2 \<Rightarrow>
      (case subscript raw ''scheduled_for'' of Inl e \<Rightarrow> Inl e | Inr v3 \<Rightarrow>
      (case dict_get raw ''completed'' (JBool False) of Inl e \<Rightarrow> Inl e | Inr v4 \<Rightarrow>
         Inr \<lparr>task_id = i, description = py_str v2, scheduled_for = py_str v3,
              completed = py_bool v4\<rparr>)))))"

text \<open>\<^verbatim>\<open>dataclasses.asdict\<close>: the fields in declaration order.\<close>

definition asdict :: "task \<Rightarrow> json" where
  "asdict t =
     JObject [(''task_id'', JInt (task_id t)), (''description'', JStr (description t)),
              (''scheduled_for'', JStr (scheduled_for t)), (''completed'', JBool (completed t))]"

subsection \<open>Storage\<close>

text \<open>
  The state of \<^verbatim>\<open>tasks.json\<close>: absent, or present with a text. \<^verbatim>\<open>json.loads\<close> and
  \<^verbatim>\<open>json.dumps\<close> are the library's: a text is modelled by what \<^verbatim>\<open>json.loads\<close>
  makes of it, the decoded value (\<open>Json\<close>) or a \<^verbatim>\<open>JSONDecodeError\<close> (\<open>Garbage\<close>), and
  \<^verbatim>\<open>json.dumps\<close> writes a text that decodes to the value it was given.
\<close>

datatype data_file = Json json | Garbage

type_synonym storage = "data_file option"

text \<open>\<^verbatim>\<open>for item in data\<close>: a list gives its items, a dict its keys, a str its characters.\<close>

fun py_iter :: "json \<Rightarrow> exn + json list" where
  "py_iter (JList xs) = Inr xs"
| "py_iter (JObject kvs) = Inr (map (\<lambda>kv. JStr (fst kv)) kvs)"
| "py_iter (JStr s) = Inr (map (\<lambda>c. JStr [c]) s)"
| "py_iter JNull = Inl TypeError"
| "py_iter (JBool b) = Inl TypeError"
| "py_iter (JInt n) = Inl TypeError"

text \<open>The list comprehension over \<^verbatim>\<open>Task.from_dict\<close>: the first exception ends it.\<close>

fun from_dicts :: "json list \<Rightarrow> exn + task list" where
  "from_dicts [] = Inr []"
| "from_dicts (item # items) =
     (case from_dict item of
        Inl e \<Rightarrow> Inl e
      | Inr t \<Rightarrow> (case from_dicts items of Inl e \<Rightarrow> Inl e | Inr ts \<Rightarrow> Inr (t # ts)))"

definition load_tasks :: "storage \<Rightarrow> exn + task list" where
  "load_tasks st =
     (case st of
        None \<Rightarrow> Inr []
      | Some Garbage \<Rightarrow> Inl (TaskError CannotReadData)
      | Some (Json data) \<Rightarrow>
          (case py_iter data of Inl e \<Rightarrow> Inl e | Inr items \<Rightarrow> from_dicts items))"

definition save_tasks :: "task list \<Rightarrow> storage" where
  "save_tasks tasks = Some (Json (JList (map asdict tasks)))"

subsection \<open>Task management actions\<close>

text \<open>\<^verbatim>\<open>max(current, default=0)\<close>.\<close>

fun max_default :: "int list \<Rightarrow> int \<Rightarrow> int" where
  "max_default [] d = d"
| "max_default (x # xs) d = fold max xs x"

definition next_task_id :: "task list \<Rightarrow> int" where
  "next_task_id tasks = max_default (map task_id tasks) 0 + 1"

definition add_task :: "string \<Rightarrow> string \<Rightarrow> storage \<Rightarrow> (exn + task) \<times> storage" where
  "add_task descr sched st =
     (case load_tasks st of
        Inl e \<Rightarrow> (Inl e, st)
      | Inr tasks \<Rightarrow>
          (let new_id = next_task_id tasks;
               new_task = \<lparr>task_id = new_id, description = descr, scheduled_for = sched,
                           completed = False\<rparr>
           in (Inr new_task, save_tasks (tasks @ [new_task]))))"

definition sort_key_of :: "task \<Rightarrow> string \<times> int" where
  "sort_key_of t = (scheduled_for t, task_id t)"

text \<open>\<^verbatim>\<open>sorted\<close> is stable, as the insertion sort \<^const>\<open>sort_key\<close> is.\<close>

definition list_tasks :: "string option \<Rightarrow> bool \<Rightarrow> bool option \<Rightarrow> storage \<Rightarrow> exn + task list" where
  "list_tasks date show_all compl st =
     (case load_tasks st of
        Inl e \<Rightarrow> Inl e
      | Inr tasks \<Rightarrow>
          (let tasks1 = (if \<not> show_all then filter (\<lambda>t. matches_date t date) tasks else tasks);
               tasks2 = (if compl \<noteq> None then filter (\<lambda>t. matches_state t compl) tasks1
                         else tasks1)
           in Inr (sort_key sort_key_of tasks2)))"

text \<open>
  The loop of \<^verbatim>\<open>update_task_state\<close>: the first task with the id is changed in place
  and returned, with the list as it then is; \<open>None\<close> when the loop ends without a match.
\<close>

fun update_loop :: "int \<Rightarrow> bool \<Rightarrow> task list \<Rightarrow> (task \<times> task list) option" where
  "update_loop i c [] = None"
| "update_loop i c (t # ts) =
     (if task_id t = i then Some (t\<lparr>completed := c\<rparr>, t\<lparr>completed := c\<rparr> # ts)
      else (case update_loop i c ts of None \<Rightarrow> None | Some (u, us) \<Rightarrow> Some (u, t # us)))"

definition update_task_state :: "int \<Rightarrow> bool \<Rightarrow> storage \<Rightarrow> (exn + task) \<times> storage" where
  "update_task_state i c st =
     (case load_tasks st of
        Inl e \<Rightarrow> (Inl e, st)
      | Inr tasks \<Rightarrow>
          (case update_loop i c tasks of
             None \<Rightarrow> (Inl (TaskError (TaskNotFound i)), st)
           | Some (t, tasks') \<Rightarrow> (Inr t, save_tasks tasks')))"

text \<open>The loop of \<^verbatim>\<open>remove_task\<close>: the first task with the id is popped and returned.\<close>

fun remove_loop :: "int \<Rightarrow> task list \<Rightarrow> (task \<times> task list) option" where
  "remove_loop i [] = None"
| "remove_loop i (t # ts) =
     (if task_id t = i then Some (t, ts)
      else (case remove_loop i ts of None \<Rightarrow> None | Some (u, us) \<Rightarrow> Some (u, t # us)))"

definition remove_task :: "int \<Rightarrow> storage \<Rightarrow> (exn + task) \<times> storage" where
  "remove_task i st =
     (case load_tasks st of
        Inl e \<Rightarrow> (Inl e, st)
      | Inr tasks \<Rightarrow>
          (case remove_loop i tasks of
             None \<Rightarrow> (Inl (TaskError (TaskNotFound i)), st)
           | Some (t, tasks') \<Rightarrow> (Inr t, save_tasks tasks')))"

subsection \<open>Command line helpers\<close>

text \<open>\<^verbatim>\<open>str.lower\<close> on code points below 256.\<close>

definition lower_char :: "char \<Rightarrow> char" where
  "lower_char c =
     (if (CHR ''A'' \<le> c \<and> c \<le> CHR ''Z'') \<or> (CHR 0xC0 \<le> c \<and> c \<le> CHR 0xDE \<and> c \<noteq> CHR 0xD7)
      then char_of (of_char c + (32::nat)) else c)"

definition lower :: "string \<Rightarrow> string" where
  "lower s = map lower_char s"

text \<open>
  \<^verbatim>\<open>datetime.strptime(value, "%Y-%m-%d")\<close>. The library turns the format into the
  regular expression
  \<^verbatim>\<open>(?P<Y>\d\d\d\d)-(?P<m>1[0-2]|0[1-9]|[1-9])-(?P<d>3[0-1]|[1-2]\d|0[1-9]|[1-9]| [1-9])\<close>,
  matches it at the start of the value, raises \<^verbatim>\<open>ValueError\<close> when it does not match
  or when text remains after the match, and then builds the date, which raises
  \<^verbatim>\<open>ValueError\<close> when year, month and day name no day of the calendar.

  A group is a list of alternatives, tried in order, an alternative a list of character
  classes. The hyphen after a group is part of each of its alternatives here, since the
  matcher goes on to the next alternative when the hyphen does not follow. At most one
  alternative of the month can match with its hyphen, so no later failure comes back
  to it.
\<close>

type_synonym char_class = "char \<Rightarrow> bool"

definition is_digit :: char_class where
  "is_digit c = (CHR ''0'' \<le> c \<and> c \<le> CHR ''9'')"

definition between :: "char \<Rightarrow> char \<Rightarrow> char_class" where
  "between lo hi c = (lo \<le> c \<and> c \<le> hi)"

definition lit :: "char \<Rightarrow> char_class" where
  "lit a c = (c = a)"

fun match_seq :: "char_class list \<Rightarrow> string \<Rightarrow> (string \<times> string) option" where
  "match_seq [] s = Some ([], s)"
| "match_seq (p # ps) [] = None"
| "match_seq (p # ps) (c # cs) =
     (if p c then (case match_seq ps cs of None \<Rightarrow> None | Some (m, r) \<Rightarrow> Some (c # m, r))
      else None)"

fun match_alts :: "char_class list list \<Rightarrow> string \<Rightarrow> (string \<times> string) option" where
  "match_alts [] s = None"
| "match_alts (a # as) s =
     (case match_seq a s of Some r \<Rightarrow> Some r | None \<Rightarrow> match_alts as s)"

definition year_group :: "char_class list list" where
  "year_group = [[is_digit, is_digit, is_digit, is_digit, lit CHR ''-'']]"

definition month_group :: "char_class list list" where
  "month_group =
     [[lit CHR ''1'', between CHR ''0'' CHR ''2'', lit CHR ''-''],
      [lit CHR ''0'', between CHR ''1'' CHR ''9'', lit CHR ''-''],
      [between CHR ''1'' CHR ''9'', lit CHR ''-'']]"

definition day_group :: "char_class list list" where
  "day_group =
     [[lit CHR ''3'', between CHR ''0'' CHR ''1''],
      [between CHR ''1'' CHR ''2'', is_digit],
      [lit CHR ''0'', between CHR ''1'' CHR ''9''],
      [between CHR ''1'' CHR ''9''],
      [lit CHR '' '', between CHR ''1'' CHR ''9'']]"

text \<open>\<^verbatim>\<open>int()\<close> of the text of a group: the value of its digits.\<close>

definition group_value :: "string \<Rightarrow> nat" where
  "group_value txt = foldl (\<lambda>n c. 10 * n + (of_char c - 48)) 0 (filter is_digit txt)"

definition is_leap :: "nat \<Rightarrow> bool" where
  "is_leap y = (y mod 4 = 0 \<and> (y mod 100 \<noteq> 0 \<or> y mod 400 = 0))"

definition days_in_month :: "nat \<Rightarrow> nat \<Rightarrow> nat" where
  "days_in_month y m =
     (if m = 2 then (if is_leap y then 29 else 28)
      else if m = 4 \<or> m = 6 \<or> m = 9 \<or> m = 11 then 30 else 31)"

text \<open>What the constructor of \<^verbatim>\<open>datetime.date\<close> accepts.\<close>

definition valid_date :: "nat \<Rightarrow> nat \<Rightarrow> nat \<Rightarrow> bool" where
  "valid_date y m d =
     (1 \<le> y \<and> y \<le> 9999 \<and> 1 \<le> m \<and> m \<le> 12 \<and> 1 \<le> d \<and> d \<le> days_in_month y m)"

text \<open>\<open>None\<close> is the \<^verbatim>\<open>ValueError\<close>.\<close>

definition strptime :: "string \<Rightarrow> (nat \<times> nat \<times> nat) option" where
  "strptime v =
     (case match_alts year_group v of None \<Rightarrow> None | Some (ytxt, r1) \<Rightarrow>
      (case match_alts month_group r1 of None \<Rightarrow> None | Some (mtxt, r2) \<Rightarrow>
      (case match_alts day_group r2 of None \<Rightarrow> None | Some (dtxt, r3) \<Rightarrow>
         if r3 \<noteq> [] then None
         else if valid_date (group_value ytxt) (group_value mtxt) (group_value dtxt)
         then Some (group_value ytxt, group_value mtxt, group_value dtxt)
         else None)))"

text \<open>
  \<^verbatim>\<open>parse_date\<close>. The parameter \<open>today\<close> is the text of
  \<^verbatim>\<open>_dt.date.today().strftime(DATE_FMT)\<close>.
\<close>

definition parse_date :: "string \<Rightarrow> string \<Rightarrow> exn + string" where
  "parse_date today v =
     (if lower v = ''today'' then Inr today
      else (case strptime v of None \<Rightarrow> Inl ArgumentTypeError | Some _ \<Rightarrow> Inr v))"

text \<open>
  The command line as \<^verbatim>\<open>argparse\<close> has split it, before the \<^verbatim>\<open>type\<close> functions
  run: the subcommand, its positional text and the options given.
\<close>

datatype command =
    CmdAdd string "string option"
  | CmdList "string option" bool bool bool
  | CmdDone string bool
  | CmdRemove string

datatype args =
    ArgsAdd string string
  | ArgsList string bool bool bool
  | ArgsDone int bool
  | ArgsRemove int

text \<open>
  \<^verbatim>\<open>--date\<close> of \<^verbatim>\<open>build_parser\<close>: \<^verbatim>\<open>type=parse_date\<close> with today's text as the
  default. \<^verbatim>\<open>argparse\<close> applies the type function to the option's text, and to a
  default that is a str when the option is absent.
\<close>

definition date_option :: "string \<Rightarrow> string option \<Rightarrow> exn + string" where
  "date_option today opt = parse_date today (case opt of None \<Rightarrow> today | Some v \<Rightarrow> v)"

text \<open>
  \<^verbatim>\<open>parser.parse_args\<close>: \<open>None\<close> is \<^verbatim>\<open>parser.error\<close>, which prints the usage and
  leaves the process with code 2. It is raised when a type function fails and when
  \<^verbatim>\<open>--completed\<close> and \<^verbatim>\<open>--pending\<close> are both given.
\<close>

fun parse_args :: "string \<Rightarrow> command \<Rightarrow> args option" where
  "parse_args today (CmdAdd descr opt) =
     (case date_option today opt of Inl e \<Rightarrow> None | Inr d \<Rightarrow> Some (ArgsAdd descr d))"
| "parse_args today (CmdList opt all c p) =
     (case date_option today opt of
        Inl e \<Rightarrow> None
      | Inr d \<Rightarrow> if c \<and> p then None else Some (ArgsList d all c p))"
| "parse_args today (CmdDone txt undone) =
     (case py_int_str txt of Inl e \<Rightarrow> None | Inr i \<Rightarrow> Some (ArgsDone i undone))"
| "parse_args today (CmdRemove txt) =
     (case py_int_str txt of Inl e \<Rightarrow> None | Inr i \<Rightarrow> Some (ArgsRemove i))"

text \<open>
  What a run prints: the texts are not modelled, only which message it is and the
  values it shows. \<^verbatim>\<open>render_tasks\<close> gives one line per task, or the message that
  nothing matches.
\<close>

datatype rendered = NoMatchingTask | Lines "(int \<times> bool \<times> string \<times> string) list"

definition render_tasks :: "task list \<Rightarrow> rendered" where
  "render_tasks tasks =
     (if tasks = [] then NoMatchingTask
      else Lines (map (\<lambda>t. (task_id t, completed t, scheduled_for t, description t)) tasks))"

datatype printed =
    Added int string
  | Listing rendered
  | NewState int bool
  | Removed int string
  | ErrorMessage task_error

text \<open>
  How a run of \<^verbatim>\<open>main\<close> ends: it returns a code, having printed to the standard
  output or to the error stream; or the parser has left with its own code; or an
  exception that is not a \<^verbatim>\<open>TaskError\<close> leaves \<^verbatim>\<open>main\<close> uncaught.
\<close>

datatype outcome =
    Returned int "printed list" "printed list"
  | ParserExit int
  | Uncaught exn

text \<open>The \<^verbatim>\<open>except TaskError\<close> clause.\<close>

definition on_error :: "exn \<Rightarrow> outcome" where
  "on_error e = (case e of TaskError m \<Rightarrow> Returned 1 [] [ErrorMessage m] | _ \<Rightarrow> Uncaught e)"

definition main :: "string \<Rightarrow> command \<Rightarrow> storage \<Rightarrow> outcome \<times> storage" where
  "main today argv st =
     (case parse_args today argv of
        None \<Rightarrow> (ParserExit 2, st)
      | Some (ArgsAdd descr d) \<Rightarrow>
          (case add_task descr d st of
             (Inl e, st') \<Rightarrow> (on_error e, st')
           | (Inr t, st') \<Rightarrow> (Returned 0 [Added (task_id t) (description t)] [], st'))
      | Some (ArgsList d all c p) \<Rightarrow>
          (let completed_state = (if c then Some True else if p then Some False else None)
           in case list_tasks (Some d) all completed_state st of
                Inl e \<Rightarrow> (on_error e, st)
              | Inr tasks \<Rightarrow> (Returned 0 [Listing (render_tasks tasks)] [], st))
      | Some (ArgsDone i undone) \<Rightarrow>
          (case update_task_state i (\<not> undone) st of
             (Inl e, st') \<Rightarrow> (on_error e, st')
           | (Inr t, st') \<Rightarrow> (Returned 0 [NewState (task_id t) (completed t)] [], st'))
      | Some (ArgsRemove i) \<Rightarrow>
          (case remove_task i st of
             (Inl e, st') \<Rightarrow> (on_error e, st')
           | (Inr t, st') \<Rightarrow> (Returned 0 [Removed (task_id t) (description t)] [], st')))"

subsection \<open>Notions of the specification\<close>

text \<open>A sequence of \<^verbatim>\<open>add_task\<close> calls, each on the file the call before it left.\<close>

fun add_all :: "(string \<times> string) list \<Rightarrow> storage \<Rightarrow> (exn + task) list \<times> storage" where
  "add_all [] st = ([], st)"
| "add_all (a # rest) st =
     (case add_task (fst a) (snd a) st of
        (r, st') \<Rightarrow> (case add_all rest st' of (rs, st'') \<Rightarrow> (r # rs, st'')))"

text \<open>The id of the task a call returned, if it returned one.\<close>

definition returned_id :: "exn + task \<Rightarrow> int option" where
  "returned_id r = (case r of Inl e \<Rightarrow> None | Inr t \<Rightarrow> Some (task_id t))"

text \<open>
  The date form of the specification: \<^verbatim>\<open>YYYY-MM-DD\<close>, fixed-width and zero-padded,
  that is ten characters, hyphens at the fifth and the eighth place, digits elsewhere.
\<close>

definition fixed_width_ymd :: "string \<Rightarrow> bool" where
  "fixed_width_ymd v =
     (length v = 10 \<and> v ! 4 = CHR ''-'' \<and> v ! 7 = CHR ''-'' \<and>
      list_all is_digit (take 4 v @ take 2 (drop 5 v) @ drop 8 v))"

text \<open>A text of that form whose year, month and day name a day of the calendar.\<close>

definition iso_date :: "string \<Rightarrow> bool" where
  "iso_date v =
     (fixed_width_ymd v \<and>
      valid_date (group_value (take 4 v)) (group_value (take 2 (drop 5 v)))
        (group_value (drop 8 v)))"

subsection \<open>Sample data\<close>

text \<open>The two tasks of the specification's scenario, and files that hold them.\<close>

definition buy_milk :: task where
  "buy_milk = \<lparr>task_id = 1, description = ''Buy milk'', scheduled_for = ''2024-05-01'',
                completed = False\<rparr>"

definition write_report :: task where
  "write_report = \<lparr>task_id = 2, description = ''Write report'', scheduled_for = ''2024-05-02'',
                    completed = False\<rparr>"

text \<open>The report stored before the milk; the second record has no \<^verbatim>\<open>completed\<close> key.\<close>

definition two_tasks :: storage where
  "two_tasks = Some (Json (JList
     [JObject [(''task_id'', JInt 2), (''description'', JStr ''Write report''),
               (''scheduled_for'', JStr ''2024-05-02''), (''completed'', JBool False)],
      JObject [(''task_id'', JInt 1), (''description'', JStr ''Buy milk''),
               (''scheduled_for'', JStr ''2024-05-01'')]]))"

text \<open>A file edited by hand, in which two records carry the id 1.\<close>

definition same_id_twice :: storage where
  "same_id_twice = Some (Json (JList
     [JObject [(''task_id'', JInt 1), (''description'', JStr ''Buy milk''),
               (''scheduled_for'', JStr ''2024-05-01''), (''completed'', JBool False)],
      JObject [(''task_id'', JInt 1), (''description'', JStr ''Buy bread''),
               (''scheduled_for'', JStr ''2024-05-01''), (''completed'', JBool False)]]))"

text \<open>A file whose record lacks \<^verbatim>\<open>task_id\<close>, and one whose \<^verbatim>\<open>task_id\<close> is no number.\<close>

definition missing_task_id :: storage where
  "missing_task_id = Some (Json (JList
     [JObject [(''description'', JStr ''Buy milk''), (''scheduled_for'', JStr ''2024-05-01'')]]))"

definition text_task_id :: storage where
  "text_task_id = Some (Json (JList
     [JObject [(''task_id'', JStr ''one''), (''description'', JStr ''Buy milk''),
               (''scheduled_for'', JStr ''2024-05-01'')]]))"

section \<open>Properties\<close>

subsection \<open>Serialisation\<close>

lemma from_dict_asdict: "from_dict (asdict t) = Inr t"
  by (simp add: from_dict_def asdict_def subscript_def dict_get_def py_str_def)

lemma from_dicts_asdict: "from_dicts (map asdict ts) = Inr ts"
  by (induction ts) (simp_all add: from_dict_asdict)

lemma load_save: "load_tasks (save_tasks ts) = Inr ts"
  by (simp add: load_tasks_def save_tasks_def from_dicts_asdict)


subsection \<open>Identifiers\<close>

lemma max_default_Max: "xs \<noteq> [] \<Longrightarrow> max_default xs d = Max (set xs)"
proof (cases xs)
  case Nil
  assume "xs \<noteq> []"
  with Nil show ?thesis by simp
next
  case (Cons a list)
  then show ?thesis
    using Max.set_eq_fold [of a list] by simp
qed

lemma next_task_id_Nil: "next_task_id [] = 1"
  by (simp add: next_task_id_def)

lemma next_task_id_Max:
  "tasks \<noteq> [] \<Longrightarrow> next_task_id tasks = Max (task_id ` set tasks) + 1"
  by (simp add: next_task_id_def max_default_Max)

lemma next_task_id_gt: "t \<in> set tasks \<Longrightarrow> task_id t < next_task_id tasks"
proof -
  assume t: "t \<in> set tasks"
  then have ne: "tasks \<noteq> []" by auto
  have "task_id t \<le> Max (task_id ` set tasks)"
    using t by (intro Max_ge) auto
  then show ?thesis
    using ne by (simp add: next_task_id_Max)
qed

lemma next_task_id_append:
  "task_id new = next_task_id tasks \<Longrightarrow> next_task_id (tasks @ [new]) = next_task_id tasks + 1"
proof (cases "tasks = []")
  case True
  assume "task_id new = next_task_id tasks"
  with True show ?thesis by (simp add: next_task_id_def)
next
  case False
  assume new: "task_id new = next_task_id tasks"
  have fin: "finite (task_id ` set tasks)" by simp
  have nonempty: "task_id ` set tasks \<noteq> {}" using False by simp
  have "Max (insert (task_id new) (task_id ` set tasks)) =
      max (task_id new) (Max (task_id ` set tasks))"
    using fin nonempty by (rule Max_insert)
  also have "\<dots> = task_id new"
    using new False by (simp add: next_task_id_Max)
  finally have "Max (task_id ` set (tasks @ [new])) = task_id new"
    by simp
  then show ?thesis
    using new by (simp add: next_task_id_Max)
qed

lemma add_task_loaded:
  "load_tasks st = Inr tasks \<Longrightarrow>
   add_task descr sched st =
     (Inr \<lparr>task_id = next_task_id tasks, description = descr, scheduled_for = sched,
           completed = False\<rparr>,
      save_tasks (tasks @ [\<lparr>task_id = next_task_id tasks, description = descr,
                            scheduled_for = sched, completed = False\<rparr>]))"
  by (simp add: add_task_def Let_def)

lemma add_all_ids:
  "load_tasks st = Inr tasks \<Longrightarrow>
   map returned_id (fst (add_all calls st)) =
     map (\<lambda>k. Some (next_task_id tasks + int k)) [0..<length calls]"
proof (induction calls arbitrary: st tasks)
  case Nil
  then show ?case by simp
next
  case (Cons a rest)
  define new where "new = \<lparr>task_id = next_task_id tasks, description = fst a,
    scheduled_for = snd a, completed = False\<rparr>"
  have step: "add_task (fst a) (snd a) st = (Inr new, save_tasks (tasks @ [new]))"
    using Cons.prems by (simp add: add_task_loaded new_def)
  have loaded: "load_tasks (save_tasks (tasks @ [new])) = Inr (tasks @ [new])"
    by (rule load_save)
  have nxt: "next_task_id (tasks @ [new]) = next_task_id tasks + 1"
    by (rule next_task_id_append) (simp add: new_def)
  have ih: "map returned_id (fst (add_all rest (save_tasks (tasks @ [new])))) =
      map (\<lambda>k. Some (next_task_id tasks + 1 + int k)) [0..<length rest]"
    using Cons.IH [OF loaded] by (simp add: nxt)
  have shift: "map (\<lambda>k. Some (next_task_id tasks + int k)) [0..<length (a # rest)] =
      Some (next_task_id tasks) #
      map (\<lambda>k. Some (next_task_id tasks + 1 + int k)) [0..<length rest]"
    by (simp add: upt_conv_Cons map_Suc_upt [symmetric] del: upt_Suc)
  obtain rs st2 where rest: "add_all rest (save_tasks (tasks @ [new])) = (rs, st2)"
    by (cases "add_all rest (save_tasks (tasks @ [new]))")
  have results: "fst (add_all (a # rest) st) = Inr new # rs"
    by (simp add: step rest)
  have tail: "map returned_id rs =
      map (\<lambda>k. Some (next_task_id tasks + 1 + int k)) [0..<length rest]"
    using ih rest by simp
  have head: "returned_id (Inr new) = Some (next_task_id tasks)"
    by (simp add: returned_id_def new_def)
  show ?case
    by (simp only: results shift list.map head tail)
qed

text \<open>\<^verbatim>\<open>add_task\<close> keeps the ids of the stored collection pairwise distinct.\<close>

lemma add_task_distinct:
  assumes "load_tasks st = Inr tasks" and "distinct (map task_id tasks)"
  shows "\<exists>tasks'. load_tasks (snd (add_task descr sched st)) = Inr tasks' \<and>
     distinct (map task_id tasks')"
proof -
  define new where "new = \<lparr>task_id = next_task_id tasks, description = descr,
    scheduled_for = sched, completed = False\<rparr>"
  have "snd (add_task descr sched st) = save_tasks (tasks @ [new])"
    by (simp add: add_task_loaded [OF assms(1)] new_def)
  then have loaded: "load_tasks (snd (add_task descr sched st)) = Inr (tasks @ [new])"
    by (simp add: load_save)
  have "task_id new \<notin> task_id ` set tasks"
  proof
    assume "task_id new \<in> task_id ` set tasks"
    then obtain t where "t \<in> set tasks" and "task_id t = task_id new"
      by auto
    with next_task_id_gt [of t tasks] show False
      by (simp add: new_def)
  qed
  with assms(2) have "distinct (map task_id (tasks @ [new]))"
    by simp
  with loaded show ?thesis
    by blast
qed

text \<open>
  C3. \<^verbatim>\<open>next_task_id\<close> is 1 on the empty collection and the greatest id plus 1
  otherwise. So a sequence of \<^verbatim>\<open>add_task\<close> calls that starts on an empty collection
  returns, at its call number \<open>k\<close> (counted from 0), the id \<open>k + 1\<close>: 1, 2, 3 and so on,
  without a gap.
\<close>

theorem next_task_id_add_sequence:
  "next_task_id [] = 1 \<and>
   (tasks \<noteq> [] \<longrightarrow> next_task_id tasks = Max (task_id ` set tasks) + 1) \<and>
   (load_tasks st = Inr [] \<longrightarrow>
      map returned_id (fst (add_all calls st)) = map (\<lambda>k. Some (int k + 1)) [0..<length calls])"
proof (intro conjI impI)
  show "next_task_id [] = 1" by (rule next_task_id_Nil)
next
  assume "tasks \<noteq> []"
  then show "next_task_id tasks = Max (task_id ` set tasks) + 1" by (rule next_task_id_Max)
next
  assume "load_tasks st = Inr []"
  from add_all_ids [OF this, of calls]
  show "map returned_id (fst (add_all calls st)) = map (\<lambda>k. Some (int k + 1)) [0..<length calls]"
    by (simp add: next_task_id_Nil add.commute)
qed

theorem next_task_id_add_sequence_witness:
  "[\<lparr>task_id = 3, description = ''a'', scheduled_for = ''2024-05-01'', completed = False\<rparr>,
    \<lparr>task_id = 7, description = ''b'', scheduled_for = ''2024-05-02'', completed = True\<rparr>] \<noteq> [] \<and>
   next_task_id
     [\<lparr>task_id = 3, description = ''a'', scheduled_for = ''2024-05-01'', completed = False\<rparr>,
      \<lparr>task_id = 7, description = ''b'', scheduled_for = ''2024-05-02'', completed = True\<rparr>] = 8 \<and>
   load_tasks None = Inr [] \<and>
   map returned_id
     (fst (add_all [(''Buy milk'', ''2024-05-01''), (''Write report'', ''2024-05-01''),
                    (''Call home'', ''2024-05-02'')] None)) = [Some 1, Some 2, Some 3]"
proof -
  have empty: "load_tasks None = Inr []"
    by (simp add: load_tasks_def)
  have upt3: "[0..<3] = [0, Suc 0, Suc (Suc 0)]"
    by (simp add: upt_rec)
  show ?thesis
    using next_task_id_add_sequence
      [of "[\<lparr>task_id = 3, description = ''a'', scheduled_for = ''2024-05-01'', completed = False\<rparr>,
            \<lparr>task_id = 7, description = ''b'', scheduled_for = ''2024-05-02'', completed = True\<rparr>]"
          None
          "[(''Buy milk'', ''2024-05-01''), (''Write report'', ''2024-05-01''),
            (''Call home'', ''2024-05-02'')]"]
    by (simp add: empty upt3)
qed

subsection \<open>The loops of \<^verbatim>\<open>update_task_state\<close> and \<^verbatim>\<open>remove_task\<close>\<close>

lemma update_loop_None: "i \<notin> task_id ` set ts \<Longrightarrow> update_loop i c ts = None"
  by (induction ts) auto

lemma remove_loop_None: "i \<notin> task_id ` set ts \<Longrightarrow> remove_loop i ts = None"
  by (induction ts) auto

lemma update_loop_first:
  "i \<in> task_id ` set ts \<Longrightarrow>
   \<exists>k. k < length ts \<and> task_id (ts ! k) = i \<and> (\<forall>j<k. task_id (ts ! j) \<noteq> i) \<and>
       update_loop i c ts = Some ((ts ! k)\<lparr>completed := c\<rparr>, ts[k := (ts ! k)\<lparr>completed := c\<rparr>])"
proof (induction ts)
  case Nil
  then show ?case by simp
next
  case (Cons t ts)
  show ?case
  proof (cases "task_id t = i")
    case True
    then have "0 < length (t # ts) \<and> task_id ((t # ts) ! 0) = i \<and>
        (\<forall>j<0. task_id ((t # ts) ! j) \<noteq> i) \<and>
        update_loop i c (t # ts) =
          Some (((t # ts) ! 0)\<lparr>completed := c\<rparr>, (t # ts)[0 := ((t # ts) ! 0)\<lparr>completed := c\<rparr>])"
      by simp
    then show ?thesis by blast
  next
    case False
    with Cons.prems have "i \<in> task_id ` set ts" by auto
    from Cons.IH [OF this] obtain k where k: "k < length ts" "task_id (ts ! k) = i"
      "\<forall>j<k. task_id (ts ! j) \<noteq> i"
      "update_loop i c ts = Some ((ts ! k)\<lparr>completed := c\<rparr>, ts[k := (ts ! k)\<lparr>completed := c\<rparr>])"
      by blast
    have before: "\<forall>j<Suc k. task_id ((t # ts) ! j) \<noteq> i"
      using False k(3) by (auto simp: less_Suc_eq_0_disj)
    have "Suc k < length (t # ts) \<and> task_id ((t # ts) ! Suc k) = i \<and>
        (\<forall>j<Suc k. task_id ((t # ts) ! j) \<noteq> i) \<and>
        update_loop i c (t # ts) =
          Some (((t # ts) ! Suc k)\<lparr>completed := c\<rparr>,
                (t # ts)[Suc k := ((t # ts) ! Suc k)\<lparr>completed := c\<rparr>])"
      using False k(1,2,4) before by simp
    then show ?thesis by blast
  qed
qed

lemma remove_loop_first:
  "i \<in> task_id ` set ts \<Longrightarrow>
   \<exists>k. k < length ts \<and> task_id (ts ! k) = i \<and> (\<forall>j<k. task_id (ts ! j) \<noteq> i) \<and>
       remove_loop i ts = Some (ts ! k, take k ts @ drop (Suc k) ts)"
proof (induction ts)
  case Nil
  then show ?case by simp
next
  case (Cons t ts)
  show ?case
  proof (cases "task_id t = i")
    case True
    then have "0 < length (t # ts) \<and> task_id ((t # ts) ! 0) = i \<and>
        (\<forall>j<0. task_id ((t # ts) ! j) \<noteq> i) \<and>
        remove_loop i (t # ts) = Some ((t # ts) ! 0, take 0 (t # ts) @ drop (Suc 0) (t # ts))"
      by simp
    then show ?thesis by blast
  next
    case False
    with Cons.prems have "i \<in> task_id ` set ts" by auto
    from Cons.IH [OF this] obtain k where k: "k < length ts" "task_id (ts ! k) = i"
      "\<forall>j<k. task_id (ts ! j) \<noteq> i"
      "remove_loop i ts = Some (ts ! k, take k ts @ drop (Suc k) ts)"
      by blast
    have before: "\<forall>j<Suc k. task_id ((t # ts) ! j) \<noteq> i"
      using False k(3) by (auto simp: less_Suc_eq_0_disj)
    have "Suc k < length (t # ts) \<and> task_id ((t # ts) ! Suc k) = i \<and>
        (\<forall>j<Suc k. task_id ((t # ts) ! j) \<noteq> i) \<and>
        remove_loop i (t # ts) =
          Some ((t # ts) ! Suc k, take (Suc k) (t # ts) @ drop (Suc (Suc k)) (t # ts))"
      using False k(1,2,4) before by simp
    then show ?thesis by blast
  qed
qed

lemma first_match_unique:
  "k < length ts \<Longrightarrow> task_id (ts ! k) = i \<Longrightarrow> \<forall>j<k. task_id (ts ! j) \<noteq> i \<Longrightarrow>
   k' < length us \<Longrightarrow> task_id (us ! k') = i \<Longrightarrow> \<forall>j<k'. task_id (us ! j) \<noteq> i \<Longrightarrow>
   map task_id us = map task_id ts \<Longrightarrow> k' = k"
proof -
  assume a: "k < length ts" "task_id (ts ! k) = i" "\<forall>j<k. task_id (ts ! j) \<noteq> i"
    "k' < length us" "task_id (us ! k') = i" "\<forall>j<k'. task_id (us ! j) \<noteq> i"
    "map task_id us = map task_id ts"
  have len: "length us = length ts"
    using a(7) by (rule map_eq_imp_length_eq)
  have same: "task_id (us ! j) = task_id (ts ! j)" if "j < length ts" for j
    using that a(7) len by (metis nth_map)
  have "\<not> k < k'"
    using a(1,2,6) same by auto
  moreover have "\<not> k' < k"
    using a(3,4,5) same len by auto
  ultimately show ?thesis by simp
qed

lemma update_task_state_loaded:
  "load_tasks st = Inr tasks \<Longrightarrow> i \<in> task_id ` set tasks \<Longrightarrow>
   \<exists>k. k < length tasks \<and> task_id (tasks ! k) = i \<and> (\<forall>j<k. task_id (tasks ! j) \<noteq> i) \<and>
       update_task_state i b st =
         (Inr ((tasks ! k)\<lparr>completed := b\<rparr>),
          save_tasks (tasks[k := (tasks ! k)\<lparr>completed := b\<rparr>]))"
proof -
  assume loaded: "load_tasks st = Inr tasks" and present: "i \<in> task_id ` set tasks"
  from update_loop_first [OF present, of b] obtain k where
    k: "k < length tasks" "task_id (tasks ! k) = i" "\<forall>j<k. task_id (tasks ! j) \<noteq> i"
    "update_loop i b tasks =
       Some ((tasks ! k)\<lparr>completed := b\<rparr>, tasks[k := (tasks ! k)\<lparr>completed := b\<rparr>])"
    by blast
  have "update_task_state i b st =
      (Inr ((tasks ! k)\<lparr>completed := b\<rparr>), save_tasks (tasks[k := (tasks ! k)\<lparr>completed := b\<rparr>]))"
    by (simp add: update_task_state_def loaded k(4))
  with k(1,2,3) show ?thesis by blast
qed

lemma remove_task_loaded:
  "load_tasks st = Inr tasks \<Longrightarrow> i \<in> task_id ` set tasks \<Longrightarrow>
   \<exists>k. k < length tasks \<and> task_id (tasks ! k) = i \<and> (\<forall>j<k. task_id (tasks ! j) \<noteq> i) \<and>
       remove_task i st = (Inr (tasks ! k), save_tasks (take k tasks @ drop (Suc k) tasks))"
proof -
  assume loaded: "load_tasks st = Inr tasks" and present: "i \<in> task_id ` set tasks"
  from remove_loop_first [OF present] obtain k where
    k: "k < length tasks" "task_id (tasks ! k) = i" "\<forall>j<k. task_id (tasks ! j) \<noteq> i"
    "remove_loop i tasks = Some (tasks ! k, take k tasks @ drop (Suc k) tasks)"
    by blast
  have "remove_task i st = (Inr (tasks ! k), save_tasks (take k tasks @ drop (Suc k) tasks))"
    by (simp add: remove_task_def loaded k(4))
  with k(1,2,3) show ?thesis by blast
qed

lemma remove_loop_distinct:
  "distinct (map task_id ts) \<Longrightarrow> remove_loop i ts = Some (t, ts') \<Longrightarrow>
   task_id t = i \<and> i \<notin> task_id ` set ts'"
proof (induction ts arbitrary: ts')
  case Nil
  then show ?case by simp
next
  case (Cons a ts)
  show ?case
  proof (cases "task_id a = i")
    case True
    with Cons.prems show ?thesis by auto
  next
    case False
    with Cons.prems obtain us where us: "remove_loop i ts = Some (t, us)" "ts' = a # us"
      by (auto split: option.splits)
    from Cons.prems(1) have "distinct (map task_id ts)" by simp
    from Cons.IH [OF this us(1)] False us(2) show ?thesis by simp
  qed
qed

lemma load_two_tasks: "load_tasks two_tasks = Inr [write_report, buy_milk]"
  by (simp add: load_tasks_def two_tasks_def from_dict_def subscript_def dict_get_def py_str_def
      write_report_def buy_milk_def)

text \<open>
  C4. When no task of the stored collection has the id (the empty collection included),
  \<^verbatim>\<open>remove_task\<close> and \<^verbatim>\<open>update_task_state\<close> raise the \<^verbatim>\<open>TaskError\<close> of the
  missing task and leave the file as it was; the commands \<^verbatim>\<open>remove\<close> and
  \<^verbatim>\<open>done\<close> then print that message to the error stream and return 1, the file
  unchanged.
\<close>

theorem not_found_leaves_file:
  "load_tasks st = Inr tasks \<Longrightarrow> i \<notin> task_id ` set tasks \<Longrightarrow>
   remove_task i st = (Inl (TaskError (TaskNotFound i)), st) \<and>
   update_task_state i b st = (Inl (TaskError (TaskNotFound i)), st) \<and>
   (py_int_str txt = Inr i \<longrightarrow>
      main today (CmdRemove txt) st = (Returned 1 [] [ErrorMessage (TaskNotFound i)], st) \<and>
      main today (CmdDone txt undone) st = (Returned 1 [] [ErrorMessage (TaskNotFound i)], st))"
  by (simp add: remove_task_def update_task_state_def remove_loop_None update_loop_None
      main_def on_error_def)

theorem not_found_leaves_file_witness:
  "load_tasks None = Inr [] \<and> 99 \<notin> task_id ` set [] \<and>
   remove_task 99 None = (Inl (TaskError (TaskNotFound 99)), None) \<and>
   update_task_state 99 True None = (Inl (TaskError (TaskNotFound 99)), None) \<and>
   py_int_str ''99'' = Inr 99 \<and>
   main ''2024-05-01'' (CmdRemove ''99'') None =
     (Returned 1 [] [ErrorMessage (TaskNotFound 99)], None) \<and>
   main ''2024-05-01'' (CmdDone ''99'' False) None =
     (Returned 1 [] [ErrorMessage (TaskNotFound 99)], None)"
proof -
  have empty: "load_tasks None = Inr []"
    by (simp add: load_tasks_def)
  have absent: "99 \<notin> task_id ` set []"
    by simp
  have number: "py_int_str ''99'' = Inr 99"
    by code_simp
  show ?thesis
    using not_found_leaves_file [OF empty absent, of True "''99''" "''2024-05-01''" False]
      empty number
    by simp
qed

subsection \<open>Listing\<close>

lemma list_tasks_loaded:
  "load_tasks st = Inr tasks \<Longrightarrow>
   list_tasks date show_all compl st =
     Inr (sort_key sort_key_of
           (filter (\<lambda>t. (show_all \<or> matches_date t date) \<and> matches_state t compl) tasks))"
proof -
  assume loaded: "load_tasks st = Inr tasks"
  show ?thesis
  proof (cases compl)
    case None
    then show ?thesis
      by (simp add: list_tasks_def loaded matches_state_def)
  next
    case (Some b)
    then show ?thesis
      by (cases show_all) (simp_all add: list_tasks_def loaded conj_commute)
  qed
qed

lemma sorted_by_date_then_id:
  "sorted_wrt (\<lambda>a b. scheduled_for a < scheduled_for b \<or>
                      scheduled_for a = scheduled_for b \<and> task_id a \<le> task_id b)
     (sort_key sort_key_of ts)"
proof -
  have "sorted (map sort_key_of (sort_key sort_key_of ts))"
    by (rule sorted_sort_key)
  then have "sorted_wrt (\<lambda>a b. sort_key_of a \<le> sort_key_of b) (sort_key sort_key_of ts)"
    by (simp add: sorted_map)
  then show ?thesis
    by (rule sorted_wrt_mono_rel [rotated])
       (auto simp: sort_key_of_def less_eq_prod_def)
qed

text \<open>
  C5. On a stored collection \<^verbatim>\<open>list_tasks\<close> returns the tasks that match the date,
  unless \<open>show_all\<close> is set, which leaves the date out and nothing else, and that match
  the completion state when one is given (\<^const>\<open>matches_state\<close> holds of every task when
  none is): each such task as often as it is stored, in ascending order of
  \<open>(scheduled_for, task_id)\<close>, whatever the order in the file.
\<close>

theorem list_tasks_filtered_sorted:
  "load_tasks st = Inr tasks \<Longrightarrow>
   \<exists>r. list_tasks date show_all compl st = Inr r \<and>
       r = sort_key sort_key_of
             (filter (\<lambda>t. (show_all \<or> matches_date t date) \<and> matches_state t compl) tasks) \<and>
       mset r =
         filter_mset (\<lambda>t. (show_all \<or> matches_date t date) \<and> matches_state t compl) (mset tasks) \<and>
       sorted_wrt (\<lambda>a b. scheduled_for a < scheduled_for b \<or>
                          scheduled_for a = scheduled_for b \<and> task_id a \<le> task_id b) r"
  by (simp add: list_tasks_loaded sorted_by_date_then_id)

theorem list_tasks_filtered_sorted_witness:
  "load_tasks two_tasks = Inr [write_report, buy_milk] \<and>
   list_tasks None True None two_tasks = Inr [buy_milk, write_report] \<and>
   list_tasks (Some ''2024-05-02'') False (Some False) two_tasks = Inr [write_report] \<and>
   list_tasks (Some ''2024-05-02'') True (Some True) two_tasks = Inr []"
proof -
  have sorted_all: "sort_key sort_key_of [write_report, buy_milk] = [buy_milk, write_report]"
    by code_simp
  have all_match: "filter (\<lambda>t. (True \<or> matches_date t None) \<and> matches_state t None)
      [write_report, buy_milk] = [write_report, buy_milk]"
    by (simp add: matches_state_def)
  from list_tasks_filtered_sorted [OF load_two_tasks, of None True None]
  have "list_tasks None True None two_tasks =
      Inr (sort_key sort_key_of
        (filter (\<lambda>t. (True \<or> matches_date t None) \<and> matches_state t None)
          [write_report, buy_milk]))"
    by blast
  then have a: "list_tasks None True None two_tasks = Inr [buy_milk, write_report]"
    by (simp only: all_match sorted_all)
  have b: "list_tasks (Some ''2024-05-02'') False (Some False) two_tasks = Inr [write_report]"
    using list_tasks_filtered_sorted [OF load_two_tasks, of "Some ''2024-05-02''" False "Some False"]
    by (simp add: matches_state_def matches_date_def write_report_def buy_milk_def)
  have c: "list_tasks (Some ''2024-05-02'') True (Some True) two_tasks = Inr []"
    using list_tasks_filtered_sorted [OF load_two_tasks, of "Some ''2024-05-02''" True "Some True"]
    by (simp add: matches_state_def write_report_def buy_milk_def)
  show ?thesis
    using load_two_tasks a b c by simp
qed

subsection \<open>Completion\<close>

text \<open>
  C9. When a task of the stored collection has the id, \<^verbatim>\<open>update_task_state\<close> returns
  the first such task with its \<open>completed\<close> field set, and saves the collection with that
  task, at its place, changed in that field only: the other fields of the task, every
  other task and the order of the tasks are as they were.
\<close>

theorem update_task_state_frame:
  "load_tasks st = Inr tasks \<Longrightarrow> i \<in> task_id ` set tasks \<Longrightarrow>
   \<exists>k. k < length tasks \<and> task_id (tasks ! k) = i \<and> (\<forall>j<k. task_id (tasks ! j) \<noteq> i) \<and>
       update_task_state i b st =
         (Inr ((tasks ! k)\<lparr>completed := b\<rparr>),
          save_tasks (tasks[k := (tasks ! k)\<lparr>completed := b\<rparr>])) \<and>
       load_tasks (save_tasks (tasks[k := (tasks ! k)\<lparr>completed := b\<rparr>])) =
         Inr (tasks[k := (tasks ! k)\<lparr>completed := b\<rparr>])"
  using update_task_state_loaded [of st tasks i b] by (simp add: load_save)

theorem update_task_state_frame_witness:
  "load_tasks two_tasks = Inr [write_report, buy_milk] \<and>
   1 \<in> task_id ` set [write_report, buy_milk] \<and>
   update_task_state 1 True two_tasks =
     (Inr (buy_milk\<lparr>completed := True\<rparr>),
      save_tasks [write_report, buy_milk\<lparr>completed := True\<rparr>]) \<and>
   load_tasks (save_tasks [write_report, buy_milk\<lparr>completed := True\<rparr>]) =
     Inr [write_report, buy_milk\<lparr>completed := True\<rparr>]"
proof -
  have present: "1 \<in> task_id ` set [write_report, buy_milk]"
    by (simp add: buy_milk_def)
  from update_task_state_frame [OF load_two_tasks present, of True]
  obtain k where k: "k < length [write_report, buy_milk]"
    "task_id ([write_report, buy_milk] ! k) = 1"
    and result: "update_task_state 1 True two_tasks =
      (Inr (([write_report, buy_milk] ! k)\<lparr>completed := True\<rparr>),
       save_tasks ([write_report, buy_milk][k := ([write_report, buy_milk] ! k)\<lparr>completed := True\<rparr>]))"
    and reload: "load_tasks (save_tasks
        ([write_report, buy_milk][k := ([write_report, buy_milk] ! k)\<lparr>completed := True\<rparr>])) =
      Inr ([write_report, buy_milk][k := ([write_report, buy_milk] ! k)\<lparr>completed := True\<rparr>])"
    by blast
  have "k = 0 \<or> k = 1"
    using k(1) by auto
  then have "k = 1"
    using k(2) by (auto simp: write_report_def)
  with result reload load_two_tasks present show ?thesis
    by simp
qed

text \<open>
  C6. When a task of the stored collection has the id, marking it done and then not
  done returns, the second time, the first task with that id as it was before the first
  call but for \<open>completed\<close>, which is false; and the file then holds the collection with
  that task so, everything else as before.
\<close>

theorem set_completion_round_trip:
  "load_tasks st = Inr tasks \<Longrightarrow> i \<in> task_id ` set tasks \<Longrightarrow>
   \<exists>k st1 st2. k < length tasks \<and> task_id (tasks ! k) = i \<and> (\<forall>j<k. task_id (tasks ! j) \<noteq> i) \<and>
       update_task_state i True st = (Inr ((tasks ! k)\<lparr>completed := True\<rparr>), st1) \<and>
       update_task_state i False st1 = (Inr ((tasks ! k)\<lparr>completed := False\<rparr>), st2) \<and>
       load_tasks st2 = Inr (tasks[k := (tasks ! k)\<lparr>completed := False\<rparr>])"
proof -
  assume loaded: "load_tasks st = Inr tasks" and present: "i \<in> task_id ` set tasks"
  from update_task_state_loaded [OF loaded present, of True] obtain k where
    k: "k < length tasks" "task_id (tasks ! k) = i" "\<forall>j<k. task_id (tasks ! j) \<noteq> i"
    and first: "update_task_state i True st =
       (Inr ((tasks ! k)\<lparr>completed := True\<rparr>),
        save_tasks (tasks[k := (tasks ! k)\<lparr>completed := True\<rparr>]))"
    by blast
  define tasks1 where "tasks1 = tasks[k := (tasks ! k)\<lparr>completed := True\<rparr>]"
  have loaded1: "load_tasks (save_tasks tasks1) = Inr tasks1"
    by (rule load_save)
  have ids1: "map task_id tasks1 = map task_id tasks"
    using k(1) by (simp add: tasks1_def map_update list_update_same_conv)
  have present1: "i \<in> task_id ` set tasks1"
    using present ids1 by (metis set_map)
  from update_task_state_loaded [OF loaded1 present1, of False] obtain k' where
    k': "k' < length tasks1" "task_id (tasks1 ! k') = i" "\<forall>j<k'. task_id (tasks1 ! j) \<noteq> i"
    and second: "update_task_state i False (save_tasks tasks1) =
       (Inr ((tasks1 ! k')\<lparr>completed := False\<rparr>),
        save_tasks (tasks1[k' := (tasks1 ! k')\<lparr>completed := False\<rparr>]))"
    by blast
  have same: "k' = k"
    using k k' ids1 by (rule first_match_unique)
  have elem: "(tasks1 ! k)\<lparr>completed := False\<rparr> = (tasks ! k)\<lparr>completed := False\<rparr>"
    using k(1) by (simp add: tasks1_def)
  have lst: "tasks1[k := (tasks ! k)\<lparr>completed := False\<rparr>] =
      tasks[k := (tasks ! k)\<lparr>completed := False\<rparr>]"
    by (simp add: tasks1_def)
  have second': "update_task_state i False (save_tasks tasks1) =
      (Inr ((tasks ! k)\<lparr>completed := False\<rparr>),
       save_tasks (tasks[k := (tasks ! k)\<lparr>completed := False\<rparr>]))"
    using second by (simp add: same elem lst)
  have "k < length tasks \<and> task_id (tasks ! k) = i \<and> (\<forall>j<k. task_id (tasks ! j) \<noteq> i) \<and>
       update_task_state i True st = (Inr ((tasks ! k)\<lparr>completed := True\<rparr>), save_tasks tasks1) \<and>
       update_task_state i False (save_tasks tasks1) =
         (Inr ((tasks ! k)\<lparr>completed := False\<rparr>),
          save_tasks (tasks[k := (tasks ! k)\<lparr>completed := False\<rparr>])) \<and>
       load_tasks (save_tasks (tasks[k := (tasks ! k)\<lparr>completed := False\<rparr>])) =
         Inr (tasks[k := (tasks ! k)\<lparr>completed := False\<rparr>])"
    using k first second' by (simp add: tasks1_def load_save)
  then show ?thesis by blast
qed

theorem set_completion_round_trip_witness:
  "load_tasks two_tasks = Inr [write_report, buy_milk] \<and>
   2 \<in> task_id ` set [write_report, buy_milk] \<and>
   (\<exists>st1 st2.
      update_task_state 2 True two_tasks = (Inr (write_report\<lparr>completed := True\<rparr>), st1) \<and>
      update_task_state 2 False st1 = (Inr (write_report\<lparr>completed := False\<rparr>), st2) \<and>
      load_tasks st2 = Inr [write_report\<lparr>completed := False\<rparr>, buy_milk])"
proof -
  have present: "2 \<in> task_id ` set [write_report, buy_milk]"
    by (simp add: write_report_def)
  from set_completion_round_trip [OF load_two_tasks present]
  obtain k st1 st2 where k: "k < length [write_report, buy_milk]"
    "task_id ([write_report, buy_milk] ! k) = 2"
    and calls: "update_task_state 2 True two_tasks =
        (Inr (([write_report, buy_milk] ! k)\<lparr>completed := True\<rparr>), st1)"
      "update_task_state 2 False st1 =
        (Inr (([write_report, buy_milk] ! k)\<lparr>completed := False\<rparr>), st2)"
      "load_tasks st2 =
        Inr ([write_report, buy_milk][k := ([write_report, buy_milk] ! k)\<lparr>completed := False\<rparr>])"
    by blast
  have "k = 0 \<or> k = 1"
    using k(1) by auto
  then have "k = 0"
    using k(2) by (auto simp: buy_milk_def)
  with calls have
    "update_task_state 2 True two_tasks = (Inr (write_report\<lparr>completed := True\<rparr>), st1) \<and>
     update_task_state 2 False st1 = (Inr (write_report\<lparr>completed := False\<rparr>), st2) \<and>
     load_tasks st2 = Inr [write_report\<lparr>completed := False\<rparr>, buy_milk]"
    by simp
  then have "\<exists>st1 st2.
      update_task_state 2 True two_tasks = (Inr (write_report\<lparr>completed := True\<rparr>), st1) \<and>
      update_task_state 2 False st1 = (Inr (write_report\<lparr>completed := False\<rparr>), st2) \<and>
      load_tasks st2 = Inr [write_report\<lparr>completed := False\<rparr>, buy_milk]"
    by blast
  with load_two_tasks present show ?thesis
    by simp
qed

subsection \<open>Removal\<close>

text \<open>
  C8, as the code has it. \<^verbatim>\<open>remove_task\<close> pops the first task with the id and no
  other. When the ids of the stored collection are pairwise distinct and one of them is
  the id, the removal succeeds and a listing of the whole collection afterwards has no
  task with that id.
\<close>

theorem remove_then_list_all:
  "load_tasks st = Inr tasks \<Longrightarrow> distinct (map task_id tasks) \<Longrightarrow> i \<in> task_id ` set tasks \<Longrightarrow>
   \<exists>t st' r. remove_task i st = (Inr t, st') \<and> task_id t = i \<and>
       list_tasks date True None st' = Inr r \<and> i \<notin> task_id ` set r"
proof -
  assume loaded: "load_tasks st = Inr tasks" and dist: "distinct (map task_id tasks)"
    and present: "i \<in> task_id ` set tasks"
  from remove_loop_first [OF present] obtain t ts' where loop: "remove_loop i tasks = Some (t, ts')"
    by blast
  from remove_loop_distinct [OF dist loop] have t: "task_id t = i" and gone: "i \<notin> task_id ` set ts'"
    by simp_all
  have removed: "remove_task i st = (Inr t, save_tasks ts')"
    by (simp add: remove_task_def loaded loop)
  have listed: "list_tasks date True None (save_tasks ts') =
      Inr (sort_key sort_key_of (filter (\<lambda>t. (True \<or> matches_date t date) \<and> matches_state t None) ts'))"
    by (rule list_tasks_loaded) (rule load_save)
  have "i \<notin> task_id ` set (sort_key sort_key_of
      (filter (\<lambda>t. (True \<or> matches_date t date) \<and> matches_state t None) ts'))"
    using gone by auto
  with removed t listed show ?thesis by blast
qed

theorem remove_then_list_all_witness:
  "load_tasks two_tasks = Inr [write_report, buy_milk] \<and>
   distinct (map task_id [write_report, buy_milk]) \<and>
   1 \<in> task_id ` set [write_report, buy_milk] \<and>
   (\<exists>t st' r. remove_task 1 two_tasks = (Inr t, st') \<and> task_id t = 1 \<and>
      list_tasks None True None st' = Inr r \<and> 1 \<notin> task_id ` set r)"
proof -
  have dist: "distinct (map task_id [write_report, buy_milk])"
    by (simp add: write_report_def buy_milk_def)
  have present: "1 \<in> task_id ` set [write_report, buy_milk]"
    by (simp add: buy_milk_def)
  show ?thesis
    using remove_then_list_all [OF load_two_tasks dist present, of None]
      load_two_tasks dist present
    by simp
qed

text \<open>
  The claim as the specification states it, for every stored collection, fails on a
  file in which two records have the id 1: the first is removed, the second is listed.
\<close>

theorem remove_then_list_all_counterexample:
  "load_tasks same_id_twice =
     Inr [\<lparr>task_id = 1, description = ''Buy milk'', scheduled_for = ''2024-05-01'',
           completed = False\<rparr>,
          \<lparr>task_id = 1, description = ''Buy bread'', scheduled_for = ''2024-05-01'',
           completed = False\<rparr>] \<and>
   remove_task 1 same_id_twice =
     (Inr \<lparr>task_id = 1, description = ''Buy milk'', scheduled_for = ''2024-05-01'',
           completed = False\<rparr>,
      save_tasks [\<lparr>task_id = 1, description = ''Buy bread'', scheduled_for = ''2024-05-01'',
                   completed = False\<rparr>]) \<and>
   list_tasks None True None
     (save_tasks [\<lparr>task_id = 1, description = ''Buy bread'', scheduled_for = ''2024-05-01'',
                  completed = False\<rparr>]) =
     Inr [\<lparr>task_id = 1, description = ''Buy bread'', scheduled_for = ''2024-05-01'',
           completed = False\<rparr>]"
proof -
  have loaded: "load_tasks same_id_twice =
     Inr [\<lparr>task_id = 1, description = ''Buy milk'', scheduled_for = ''2024-05-01'',
           completed = False\<rparr>,
          \<lparr>task_id = 1, description = ''Buy bread'', scheduled_for = ''2024-05-01'',
           completed = False\<rparr>]"
    by (simp add: load_tasks_def same_id_twice_def from_dict_def subscript_def dict_get_def
        py_str_def)
  have removed: "remove_task 1 same_id_twice =
     (Inr \<lparr>task_id = 1, description = ''Buy milk'', scheduled_for = ''2024-05-01'',
           completed = False\<rparr>,
      save_tasks [\<lparr>task_id = 1, description = ''Buy bread'', scheduled_for = ''2024-05-01'',
                   completed = False\<rparr>])"
    by (simp add: remove_task_def loaded)
  have listed: "list_tasks None True None
     (save_tasks [\<lparr>task_id = 1, description = ''Buy bread'', scheduled_for = ''2024-05-01'',
                  completed = False\<rparr>]) =
     Inr [\<lparr>task_id = 1, description = ''Buy bread'', scheduled_for = ''2024-05-01'',
           completed = False\<rparr>]"
    by (simp add: list_tasks_loaded [OF load_save] matches_state_def)
  show ?thesis
    using loaded removed listed by simp
qed

subsection \<open>Dates\<close>

text \<open>Characters are compared through their codes, which turns the classes into arithmetic.\<close>

lemma char_eq_iff_nat: "c = d \<longleftrightarrow> (of_char c :: nat) = of_char d"
  by (simp add: of_char_eq_iff)

lemma is_digit_cases:
  "is_digit c \<Longrightarrow>
   c = CHR ''0'' \<or> c = CHR ''1'' \<or> c = CHR ''2'' \<or> c = CHR ''3'' \<or> c = CHR ''4'' \<or>
   c = CHR ''5'' \<or> c = CHR ''6'' \<or> c = CHR ''7'' \<or> c = CHR ''8'' \<or> c = CHR ''9''"
proof -
  assume "is_digit c"
  then have "48 \<le> (of_char c :: nat) \<and> (of_char c :: nat) \<le> 57"
    by (simp add: is_digit_def less_eq_char_def)
  then show ?thesis
    unfolding char_eq_iff_nat [of c] by simp arith
qed

lemma fixed_width_ymd_shape:
  "fixed_width_ymd v \<Longrightarrow>
   \<exists>y1 y2 y3 y4 m1 m2 d1 d2. v = [y1, y2, y3, y4, CHR ''-'', m1, m2, CHR ''-'', d1, d2] \<and>
     is_digit y1 \<and> is_digit y2 \<and> is_digit y3 \<and> is_digit y4 \<and> is_digit m1 \<and> is_digit m2 \<and>
     is_digit d1 \<and> is_digit d2"
proof -
  assume fw: "fixed_width_ymd v"
  then have len: "length v = 10" by (simp add: fixed_width_ymd_def)
  then obtain c0 c1 c2 c3 c4 c5 c6 c7 c8 c9 where v: "v = [c0, c1, c2, c3, c4, c5, c6, c7, c8, c9]"
    by (auto simp: length_Suc_conv eval_nat_numeral)
  with fw show ?thesis
    by (simp add: fixed_width_ymd_def)
qed

lemma not_digit_hyphen: "\<not> is_digit CHR ''-''"
  by (simp add: is_digit_def)

lemma group_value_hyphen: "group_value (xs @ [CHR ''-'']) = group_value xs"
  by (simp add: group_value_def not_digit_hyphen)

lemma lit_nat: "lit a c \<longleftrightarrow> (of_char c :: nat) = of_char a"
  by (simp add: lit_def of_char_eq_iff)

lemma between_nat:
  "between lo hi c \<longleftrightarrow> (of_char lo :: nat) \<le> of_char c \<and> (of_char c :: nat) \<le> of_char hi"
  by (simp add: between_def less_eq_char_def)

lemma is_digit_nat: "is_digit c \<longleftrightarrow> 48 \<le> (of_char c :: nat) \<and> (of_char c :: nat) \<le> 57"
  by (simp add: is_digit_def less_eq_char_def)

lemma group_value_two:
  "is_digit c1 \<Longrightarrow> is_digit c2 \<Longrightarrow>
   group_value [c1, c2] = 10 * (of_char c1 - 48) + (of_char c2 - 48)"
  by (simp add: group_value_def)

lemma month_fixed_width:
  assumes "is_digit m1" and "is_digit m2"
  shows "match_alts month_group (m1 # m2 # CHR ''-'' # r) =
     (if 1 \<le> group_value [m1, m2] \<and> group_value [m1, m2] \<le> 12
      then Some ([m1, m2, CHR ''-''], r) else None)"
proof -
  define a :: nat where "a = of_char m1"
  define b :: nat where "b = of_char m2"
  have range: "48 \<le> a" "a \<le> 57" "48 \<le> b" "b \<le> 57"
    using assms by (simp_all add: is_digit_nat a_def b_def)
  have val: "group_value [m1, m2] = 10 * (a - 48) + (b - 48)"
    using assms by (simp add: group_value_two a_def b_def)
  have alt1: "match_seq [lit CHR ''1'', between CHR ''0'' CHR ''2'', lit CHR ''-'']
      (m1 # m2 # CHR ''-'' # r) =
      (if a = 49 \<and> b \<le> 50 then Some ([m1, m2, CHR ''-''], r) else None)"
    using range by (simp add: lit_nat between_nat a_def b_def)
  have alt2: "match_seq [lit CHR ''0'', between CHR ''1'' CHR ''9'', lit CHR ''-'']
      (m1 # m2 # CHR ''-'' # r) =
      (if a = 48 \<and> 49 \<le> b then Some ([m1, m2, CHR ''-''], r) else None)"
    using range by (simp add: lit_nat between_nat a_def b_def)
  have alt3: "match_seq [between CHR ''1'' CHR ''9'', lit CHR ''-''] (m1 # m2 # CHR ''-'' # r) = None"
    using range by (simp add: lit_nat between_nat a_def b_def)
  have cond: "(1 \<le> 10 * (a - 48) + (b - 48) \<and> 10 * (a - 48) + (b - 48) \<le> 12) \<longleftrightarrow>
      (a = 49 \<and> b \<le> 50) \<or> (a = 48 \<and> 49 \<le> b)"
    using range by arith
  have "match_alts month_group (m1 # m2 # CHR ''-'' # r) =
      (if (a = 49 \<and> b \<le> 50) \<or> (a = 48 \<and> 49 \<le> b) then Some ([m1, m2, CHR ''-''], r) else None)"
    by (simp only: month_group_def match_alts.simps alt1 alt2 alt3) auto
  then show ?thesis
    unfolding val cond .
qed

lemma day_fixed_width:
  assumes "is_digit d1" and "is_digit d2"
  shows "match_alts day_group [d1, d2] =
     (if 1 \<le> group_value [d1, d2] \<and> group_value [d1, d2] \<le> 31 then Some ([d1, d2], [])
      else if d1 \<noteq> CHR ''0'' then Some ([d1], [d2]) else None)"
proof -
  define a :: nat where "a = of_char d1"
  define b :: nat where "b = of_char d2"
  have range: "48 \<le> a" "a \<le> 57" "48 \<le> b" "b \<le> 57"
    using assms by (simp_all add: is_digit_nat a_def b_def)
  have val: "group_value [d1, d2] = 10 * (a - 48) + (b - 48)"
    using assms by (simp add: group_value_two a_def b_def)
  have zero: "d1 \<noteq> CHR ''0'' \<longleftrightarrow> a \<noteq> 48"
    by (simp add: char_eq_iff_nat [of d1] a_def)
  have alt1: "match_seq [lit CHR ''3'', between CHR ''0'' CHR ''1''] [d1, d2] =
      (if a = 51 \<and> b \<le> 49 then Some ([d1, d2], []) else None)"
    using range by (simp add: lit_nat between_nat a_def b_def)
  have alt2: "match_seq [between CHR ''1'' CHR ''2'', is_digit] [d1, d2] =
      (if 49 \<le> a \<and> a \<le> 50 then Some ([d1, d2], []) else None)"
    using range assms by (simp add: lit_nat between_nat a_def b_def)
  have alt3: "match_seq [lit CHR ''0'', between CHR ''1'' CHR ''9''] [d1, d2] =
      (if a = 48 \<and> 49 \<le> b then Some ([d1, d2], []) else None)"
    using range by (simp add: lit_nat between_nat a_def b_def)
  have alt4: "match_seq [between CHR ''1'' CHR ''9''] [d1, d2] =
      (if 49 \<le> a then Some ([d1], [d2]) else None)"
    using range by (simp add: lit_nat between_nat a_def b_def)
  have alt5: "match_seq [lit CHR '' '', between CHR ''1'' CHR ''9''] [d1, d2] = None"
    using range by (simp add: lit_nat between_nat a_def b_def)
  have cond: "(1 \<le> 10 * (a - 48) + (b - 48) \<and> 10 * (a - 48) + (b - 48) \<le> 31) \<longleftrightarrow>
      (a = 51 \<and> b \<le> 49) \<or> (49 \<le> a \<and> a \<le> 50) \<or> (a = 48 \<and> 49 \<le> b)"
    using range by arith
  have rest: "\<not> ((a = 51 \<and> b \<le> 49) \<or> (49 \<le> a \<and> a \<le> 50) \<or> (a = 48 \<and> 49 \<le> b)) \<Longrightarrow>
      49 \<le> a \<longleftrightarrow> a \<noteq> 48"
    using range by arith
  have "match_alts day_group [d1, d2] =
      (if (a = 51 \<and> b \<le> 49) \<or> (49 \<le> a \<and> a \<le> 50) \<or> (a = 48 \<and> 49 \<le> b)
       then Some ([d1, d2], [])
       else if a \<noteq> 48 then Some ([d1], [d2]) else None)"
    using rest by (simp only: day_group_def match_alts.simps alt1 alt2 alt3 alt4 alt5) auto
  then show ?thesis
    unfolding val cond zero .
qed

lemma days_in_month_le: "days_in_month y m \<le> 31"
  by (simp add: days_in_month_def)

lemma strptime_fixed_width:
  assumes "fixed_width_ymd v"
  shows "strptime v =
     (if valid_date (group_value (take 4 v)) (group_value (take 2 (drop 5 v)))
           (group_value (drop 8 v))
      then Some (group_value (take 4 v), group_value (take 2 (drop 5 v)), group_value (drop 8 v))
      else None)"
proof -
  from fixed_width_ymd_shape [OF assms] obtain y1 y2 y3 y4 m1 m2 d1 d2 where
    v: "v = [y1, y2, y3, y4, CHR ''-'', m1, m2, CHR ''-'', d1, d2]"
    and dy: "is_digit y1" "is_digit y2" "is_digit y3" "is_digit y4"
    and dm: "is_digit m1" "is_digit m2" and dd: "is_digit d1" "is_digit d2"
    by blast
  define Y where "Y = group_value [y1, y2, y3, y4]"
  define M where "M = group_value [m1, m2]"
  define D where "D = group_value [d1, d2]"
  have year: "match_alts year_group v =
      Some ([y1, y2, y3, y4, CHR ''-''], [m1, m2, CHR ''-'', d1, d2])"
    using dy by (simp add: v year_group_def lit_def)
  have month: "match_alts month_group [m1, m2, CHR ''-'', d1, d2] =
      (if 1 \<le> M \<and> M \<le> 12 then Some ([m1, m2, CHR ''-''], [d1, d2]) else None)"
    unfolding M_def using dm by (rule month_fixed_width)
  have day: "match_alts day_group [d1, d2] =
      (if 1 \<le> D \<and> D \<le> 31 then Some ([d1, d2], [])
       else if d1 \<noteq> CHR ''0'' then Some ([d1], [d2]) else None)"
    unfolding D_def using dd by (rule day_fixed_width)
  have ytxt: "group_value [y1, y2, y3, y4, CHR ''-''] = Y"
    using group_value_hyphen [of "[y1, y2, y3, y4]"] by (simp add: Y_def)
  have mtxt: "group_value [m1, m2, CHR ''-''] = M"
    using group_value_hyphen [of "[m1, m2]"] by (simp add: M_def)
  have parts: "group_value (take 4 v) = Y" "group_value (take 2 (drop 5 v)) = M"
    "group_value (drop 8 v) = D"
    by (simp_all add: v Y_def M_def D_def)
  have valid: "valid_date Y M D \<Longrightarrow> 1 \<le> M \<and> M \<le> 12 \<and> 1 \<le> D \<and> D \<le> 31"
    using days_in_month_le [of Y M] by (simp add: valid_date_def)
  have "strptime v = (if valid_date Y M D then Some (Y, M, D) else None)"
  proof (cases "1 \<le> M \<and> M \<le> 12")
    case False
    then have "match_alts month_group [m1, m2, CHR ''-'', d1, d2] = None"
      by (simp only: month if_False)
    then have "strptime v = None"
      by (simp add: strptime_def year)
    with False valid show ?thesis by auto
  next
    case month_ok: True
    then have month': "match_alts month_group [m1, m2, CHR ''-'', d1, d2] =
        Some ([m1, m2, CHR ''-''], [d1, d2])"
      by (simp only: month if_True simp_thms)
    show ?thesis
    proof (cases "1 \<le> D \<and> D \<le> 31")
      case True
      then have "match_alts day_group [d1, d2] = Some ([d1, d2], [])"
        by (simp only: day if_True simp_thms)
      then show ?thesis
        by (simp add: strptime_def year month' ytxt mtxt D_def)
    next
      case False
      then have "match_alts day_group [d1, d2] =
          (if d1 \<noteq> CHR ''0'' then Some ([d1], [d2]) else None)"
        by (simp only: day if_False)
      then have "strptime v = None"
        by (simp add: strptime_def year month')
      with False valid show ?thesis by auto
    qed
  qed
  then show ?thesis
    by (simp only: parts)
qed

lemma length_lower: "length (lower v) = length v"
  by (simp add: lower_def)

lemma fixed_width_not_today: "fixed_width_ymd v \<Longrightarrow> lower v \<noteq> ''today''"
proof
  assume "fixed_width_ymd v" and "lower v = ''today''"
  then have "length v = 10" and "length (lower v) = 5"
    by (simp_all add: fixed_width_ymd_def)
  then show False
    by (simp add: length_lower)
qed

lemma parse_date_today: "lower v = ''today'' \<Longrightarrow> parse_date today v = Inr today"
  by (simp add: parse_date_def)

lemma parse_date_iso: "iso_date v \<Longrightarrow> parse_date today v = Inr v"
  by (simp add: parse_date_def iso_date_def fixed_width_not_today strptime_fixed_width)

lemma parse_date_not_a_date:
  "fixed_width_ymd v \<Longrightarrow> \<not> iso_date v \<Longrightarrow> parse_date today v = Inl ArgumentTypeError"
  by (simp add: parse_date_def iso_date_def fixed_width_not_today strptime_fixed_width)

text \<open>
  C2, as the code has it. \<^verbatim>\<open>parse_date\<close> returns today's date for \<^verbatim>\<open>today\<close> in
  any letter case. For a fixed-width zero-padded \<^verbatim>\<open>YYYY-MM-DD\<close> text it succeeds
  exactly when the text names a day of the calendar (years 1 to 9999), and then returns
  the text unchanged. Every rejection is the \<^verbatim>\<open>ArgumentTypeError\<close> for
  \<^verbatim>\<open>argparse\<close>: \<^verbatim>\<open>add\<close> and \<^verbatim>\<open>list\<close> with such a \<^verbatim>\<open>--date\<close> leave through
  the parser with code 2 and the file untouched.
\<close>

theorem parse_date_accepts:
  "(lower v = ''today'' \<longrightarrow> parse_date today v = Inr today) \<and>
   (iso_date v \<longrightarrow> parse_date today v = Inr v) \<and>
   (fixed_width_ymd v \<and> \<not> iso_date v \<longrightarrow> parse_date today v = Inl ArgumentTypeError) \<and>
   (parse_date today v = Inl e \<longrightarrow>
      e = ArgumentTypeError \<and>
      main today (CmdAdd descr (Some v)) st = (ParserExit 2, st) \<and>
      main today (CmdList (Some v) all c p) st = (ParserExit 2, st))"
proof (intro conjI impI)
  assume "lower v = ''today''"
  then show "parse_date today v = Inr today" by (rule parse_date_today)
next
  assume "iso_date v"
  then show "parse_date today v = Inr v" by (rule parse_date_iso)
next
  assume "fixed_width_ymd v \<and> \<not> iso_date v"
  then show "parse_date today v = Inl ArgumentTypeError" by (simp add: parse_date_not_a_date)
next
  assume failed: "parse_date today v = Inl e"
  then show "e = ArgumentTypeError"
    by (auto simp: parse_date_def split: if_splits option.splits)
  show "main today (CmdAdd descr (Some v)) st = (ParserExit 2, st)"
    using failed by (simp add: main_def date_option_def)
  show "main today (CmdList (Some v) all c p) st = (ParserExit 2, st)"
    using failed by (simp add: main_def date_option_def)
qed

theorem parse_date_accepts_witness:
  "lower ''Today'' = ''today'' \<and> parse_date ''2024-05-01'' ''Today'' = Inr ''2024-05-01'' \<and>
   iso_date ''2024-02-29'' \<and> parse_date ''2024-05-01'' ''2024-02-29'' = Inr ''2024-02-29'' \<and>
   fixed_width_ymd ''2023-02-29'' \<and> \<not> iso_date ''2023-02-29'' \<and>
   parse_date ''2024-05-01'' ''2023-02-29'' = Inl ArgumentTypeError \<and>
   parse_date ''2024-05-01'' ''tomorrow'' = Inl ArgumentTypeError \<and>
   main ''2024-05-01'' (CmdAdd ''Buy milk'' (Some ''tomorrow'')) None = (ParserExit 2, None) \<and>
   main ''2024-05-01'' (CmdList (Some ''tomorrow'') False False False) None = (ParserExit 2, None)"
proof -
  have h1: "lower ''Today'' = ''today''"
    by code_simp
  have h2: "iso_date ''2024-02-29''"
    by code_simp
  have h3: "fixed_width_ymd ''2023-02-29'' \<and> \<not> iso_date ''2023-02-29''"
    by code_simp
  have h5: "parse_date ''2024-05-01'' ''tomorrow'' = Inl ArgumentTypeError"
    by code_simp
  have c1: "parse_date ''2024-05-01'' ''Today'' = Inr ''2024-05-01''"
    using parse_date_accepts [of "''Today''" "''2024-05-01''"] h1 by blast
  have c2: "parse_date ''2024-05-01'' ''2024-02-29'' = Inr ''2024-02-29''"
    using parse_date_accepts [of "''2024-02-29''" "''2024-05-01''"] h2 by blast
  have c3: "parse_date ''2024-05-01'' ''2023-02-29'' = Inl ArgumentTypeError"
    using parse_date_accepts [of "''2023-02-29''" "''2024-05-01''"] h3 by blast
  have c5: "main ''2024-05-01'' (CmdAdd ''Buy milk'' (Some ''tomorrow'')) None = (ParserExit 2, None) \<and>
    main ''2024-05-01'' (CmdList (Some ''tomorrow'') False False False) None = (ParserExit 2, None)"
    using parse_date_accepts [of "''tomorrow''" "''2024-05-01''" ArgumentTypeError
        "''Buy milk''" None False False False] h5
    by blast
  show ?thesis
    using h1 h2 h3 h5 c1 c2 c3 c5 by blast
qed

text \<open>
  The claim as the specification states it fails in both directions: \<^verbatim>\<open>TODAY\<close> is
  accepted though it is neither the literal \<^verbatim>\<open>today\<close> nor a date text, and the
  fixed-width zero-padded \<^verbatim>\<open>2024-02-30\<close> is rejected.
\<close>

theorem parse_date_counterexample:
  "parse_date ''2024-05-01'' ''TODAY'' = Inr ''2024-05-01'' \<and> ''TODAY'' \<noteq> ''today'' \<and>
   \<not> fixed_width_ymd ''TODAY'' \<and>
   fixed_width_ymd ''2024-02-30'' \<and>
   parse_date ''2024-05-01'' ''2024-02-30'' = Inl ArgumentTypeError"
proof -
  have a: "parse_date ''2024-05-01'' ''TODAY'' = Inr ''2024-05-01''"
    by code_simp
  have b: "\<not> fixed_width_ymd ''TODAY''"
    by code_simp
  have c: "fixed_width_ymd ''2024-02-30''"
    by code_simp
  have d: "parse_date ''2024-05-01'' ''2024-02-30'' = Inl ArgumentTypeError"
    by code_simp
  show ?thesis
    using a b c d by simp
qed

text \<open>
  \<^verbatim>\<open>strptime\<close> also reads a month and a day of one digit, against the format
  \<^verbatim>\<open>YYYY-MM-DD\<close> that the program's help and its error message name; the text is
  stored as given.
\<close>

lemma parse_date_unpadded: "parse_date ''2024-05-01'' ''2024-5-1'' = Inr ''2024-5-1''"
  by code_simp

subsection \<open>Defaults of the command line\<close>

text \<open>
  C10. Let \<open>today\<close> be the text of the current date, fixed-width and zero-padded. The
  command \<^verbatim>\<open>list\<close> without \<^verbatim>\<open>--date\<close> and without \<^verbatim>\<open>--all\<close> prints the tasks
  scheduled for today, sorted, and no other task of the collection; the command
  \<^verbatim>\<open>add\<close> without \<^verbatim>\<open>--date\<close> stores the new task scheduled for today.
\<close>

theorem bare_list_shows_today:
  "iso_date today \<Longrightarrow> load_tasks st = Inr tasks \<Longrightarrow>
   main today (CmdList None False False False) st =
     (Returned 0
        [Listing (render_tasks
           (sort_key sort_key_of (filter (\<lambda>t. scheduled_for t = today) tasks)))] [],
      st) \<and>
   main today (CmdAdd descr None) st =
     (Returned 0 [Added (next_task_id tasks) descr] [],
      save_tasks (tasks @ [\<lparr>task_id = next_task_id tasks, description = descr,
                            scheduled_for = today, completed = False\<rparr>]))"
proof -
  assume today: "iso_date today" and loaded: "load_tasks st = Inr tasks"
  have dflt: "date_option today None = Inr today"
    using today by (simp add: date_option_def parse_date_iso)
  have listed: "list_tasks (Some today) False None st =
      Inr (sort_key sort_key_of (filter (\<lambda>t. scheduled_for t = today) tasks))"
    by (simp add: list_tasks_loaded [OF loaded] matches_date_def matches_state_def)
  have l: "main today (CmdList None False False False) st =
     (Returned 0
        [Listing (render_tasks
           (sort_key sort_key_of (filter (\<lambda>t. scheduled_for t = today) tasks)))] [],
      st)"
    by (simp add: main_def dflt listed)
  have a: "main today (CmdAdd descr None) st =
     (Returned 0 [Added (next_task_id tasks) descr] [],
      save_tasks (tasks @ [\<lparr>task_id = next_task_id tasks, description = descr,
                            scheduled_for = today, completed = False\<rparr>]))"
    by (simp add: main_def dflt add_task_loaded [OF loaded])
  from l a show ?thesis by simp
qed

theorem bare_list_shows_today_witness:
  "iso_date ''2024-05-01'' \<and> load_tasks two_tasks = Inr [write_report, buy_milk] \<and>
   main ''2024-05-01'' (CmdList None False False False) two_tasks =
     (Returned 0 [Listing (Lines [(1, False, ''2024-05-01'', ''Buy milk'')])] [], two_tasks) \<and>
   main ''2024-05-01'' (CmdAdd ''Call home'' None) two_tasks =
     (Returned 0 [Added 3 ''Call home''] [],
      save_tasks [write_report, buy_milk,
                  \<lparr>task_id = 3, description = ''Call home'', scheduled_for = ''2024-05-01'',
                   completed = False\<rparr>])"
proof -
  have today: "iso_date ''2024-05-01''"
    by code_simp
  have shown: "filter (\<lambda>t. scheduled_for t = ''2024-05-01'') [write_report, buy_milk] = [buy_milk]"
    by (simp add: write_report_def buy_milk_def)
  have rendered: "render_tasks (sort_key sort_key_of [buy_milk]) =
      Lines [(1, False, ''2024-05-01'', ''Buy milk'')]"
    by (simp add: render_tasks_def buy_milk_def)
  have next_id: "next_task_id [write_report, buy_milk] = 3"
    by (simp add: next_task_id_def write_report_def buy_milk_def)
  show ?thesis
    using bare_list_shows_today [OF today load_two_tasks, of "''Call home''"]
    by (simp only: shown rendered next_id today load_two_tasks append.simps simp_thms)
qed

subsection \<open>Failures while loading\<close>

text \<open>
  Every command loads the file first. An exception of \<^verbatim>\<open>load_tasks\<close> reaches the
  \<^verbatim>\<open>except TaskError\<close> clause of \<^verbatim>\<open>main\<close>, which reports a \<^verbatim>\<open>TaskError\<close> and
  lets anything else pass.
\<close>

lemma load_failure_outcome:
  "load_tasks st = Inl e \<Longrightarrow> parse_args today argv = Some a \<Longrightarrow>
   main today argv st = (on_error e, st)"
  by (cases a)
     (simp_all add: main_def add_task_def list_tasks_def update_task_state_def remove_task_def)

text \<open>A text that is not JSON is such a \<^verbatim>\<open>TaskError\<close>: message on the error stream, code 1.\<close>

lemma corrupted_file_reported:
  "parse_args today argv = Some a \<Longrightarrow>
   main today argv (Some Garbage) = (Returned 1 [] [ErrorMessage CannotReadData], Some Garbage)"
  by (simp add: load_failure_outcome [of "Some Garbage" "TaskError CannotReadData"]
      load_tasks_def on_error_def)

text \<open>
  C1. A stored record without \<^verbatim>\<open>task_id\<close> makes \<^verbatim>\<open>Task.from_dict\<close> raise
  \<^verbatim>\<open>KeyError\<close>, and one whose \<^verbatim>\<open>task_id\<close> is the text \<^verbatim>\<open>one\<close> makes it raise
  \<^verbatim>\<open>ValueError\<close>. Neither is a \<^verbatim>\<open>TaskError\<close>: \<^verbatim>\<open>main\<close> does not catch them,
  prints no message of its own and returns no code.
\<close>

theorem malformed_record_uncaught:
  "load_tasks missing_task_id = Inl (KeyError ''task_id'') \<and>
   main ''2024-05-01'' (CmdList None False False False) missing_task_id =
     (Uncaught (KeyError ''task_id''), missing_task_id) \<and>
   load_tasks text_task_id = Inl ValueError \<and>
   main ''2024-05-01'' (CmdList None False False False) text_task_id =
     (Uncaught ValueError, text_task_id)"
proof -
  have args: "parse_args ''2024-05-01'' (CmdList None False False False) =
      Some (ArgsList ''2024-05-01'' False False False)"
    by code_simp
  have a: "load_tasks missing_task_id = Inl (KeyError ''task_id'')"
    by (simp add: load_tasks_def missing_task_id_def from_dict_def subscript_def)
  have b: "load_tasks text_task_id = Inl ValueError"
    by code_simp
  show ?thesis
    using load_failure_outcome [OF a args] load_failure_outcome [OF b args] a b
    by (simp add: on_error_def)
qed

end
